theory Spec2Isabelle
  imports Complex_Main "HOL-Library.Sublist" "HOL-Library.AList"
begin

section \<open>Python values and exceptions\<close>

text \<open>
  Both scripts work on the objects that \<^verbatim>\<open>json.loads\<close> and \<^verbatim>\<open>yaml.safe_load\<close> return:
  \<^verbatim>\<open>None\<close>, booleans, integers, floats (as reals), strings, lists and dictionaries with
  string keys. A dictionary is an association list in insertion order with distinct keys,
  read with \<open>map_of\<close>; strings are lists of 8-bit characters (ASCII text).
\<close>

datatype pyval =
    PNone
  | PBool bool
  | PInt int
  | PFloat real
  | PStr string
  | PList "pyval list"
  | PDict "(string \<times> pyval) list"

text \<open>
  \<open>Exception_raised m\<close> is \<^verbatim>\<open>raise Exception(m)\<close> of the script itself; the others are
  raised by the interpreter (\<open>KeyError k\<close> for a missing dictionary key \<open>k\<close>) or by a
  library call (\<open>External m\<close>: the process runner, the JSON decoder).
\<close>

datatype pyerr =
    Exception_raised string
  | KeyError string
  | TypeError
  | AttributeError
  | IndexError
  | External string

fun and_then :: "pyerr + 'a \<Rightarrow> ('a \<Rightarrow> pyerr + 'b) \<Rightarrow> pyerr + 'b" where
  "and_then (Inl e) f = Inl e"
| "and_then (Inr x) f = f x"

text \<open>Truth value of an object, as \<^verbatim>\<open>if x:\<close> and \<^verbatim>\<open>not x\<close> test it.\<close>

fun py_truthy :: "pyval \<Rightarrow> bool" where
  "py_truthy PNone = False"
| "py_truthy (PBool b) = b"
| "py_truthy (PInt i) = (i \<noteq> 0)"
| "py_truthy (PFloat x) = (x \<noteq> 0)"
| "py_truthy (PStr s) = (s \<noteq> [])"
| "py_truthy (PList xs) = (xs \<noteq> [])"
| "py_truthy (PDict kvs) = (kvs \<noteq> [])"

text \<open>\<^verbatim>\<open>v[k]\<close> with a string \<open>k\<close>: only a dictionary can be subscripted by a string.\<close>

fun py_getitem :: "pyval \<Rightarrow> string \<Rightarrow> pyerr + pyval" where
  "py_getitem (PDict kvs) k = (case map_of kvs k of None \<Rightarrow> Inl (KeyError k) | Some v \<Rightarrow> Inr v)"
| "py_getitem _ k = Inl TypeError"

text \<open>\<^verbatim>\<open>v.get(k, d)\<close>: only a dictionary has the method.\<close>

fun py_get :: "pyval \<Rightarrow> string \<Rightarrow> pyval \<Rightarrow> pyerr + pyval" where
  "py_get (PDict kvs) k d = Inr (case map_of kvs k of None \<Rightarrow> d | Some v \<Rightarrow> v)"
| "py_get _ k d = Inl AttributeError"

text \<open>
  \<^verbatim>\<open>for x in v\<close>: a list yields its elements, a string its characters, a dictionary its
  keys; nothing else is iterable.
\<close>

fun py_iter :: "pyval \<Rightarrow> pyerr + pyval list" where
  "py_iter (PList xs) = Inr xs"
| "py_iter (PStr s) = Inr (map (\<lambda>c. PStr [c]) s)"
| "py_iter (PDict kvs) = Inr (map (\<lambda>kv. PStr (fst kv)) kvs)"
| "py_iter _ = Inl TypeError"

text \<open>
  The receiver of \<^verbatim>\<open>split\<close>, \<^verbatim>\<open>startswith\<close>, \<^verbatim>\<open>endswith\<close> and \<^verbatim>\<open>replace\<close>: of the
  objects above only a string has these methods.
\<close>

fun str_receiver :: "pyval \<Rightarrow> pyerr + string" where
  "str_receiver (PStr s) = Inr s"
| "str_receiver _ = Inl AttributeError"

text \<open>\<^verbatim>\<open>xs[i]\<close> on a list, for a constant index \<open>i \<ge> 0\<close>.\<close>

definition py_index :: "'a list \<Rightarrow> nat \<Rightarrow> pyerr + 'a" where
  "py_index xs i = (if i < length xs then Inr (xs ! i) else Inl IndexError)"

section \<open>String methods\<close>

text \<open>\<^verbatim>\<open>s.split(sep)\<close> for a one-character separator: never the empty list.\<close>

fun split_py :: "char \<Rightarrow> string \<Rightarrow> string list" where
  "split_py sep [] = [[]]"
| "split_py sep (c # cs) =
     (if c = sep then [] # split_py sep cs
      else (case split_py sep cs of [] \<Rightarrow> [[c]] | w # ws \<Rightarrow> (c # w) # ws))"

text \<open>\<^verbatim>\<open>s.lstrip(chars)\<close>: drops the longest prefix made of characters of \<open>chars\<close>.\<close>

definition lstrip :: "string \<Rightarrow> string \<Rightarrow> string" where
  "lstrip chars s = dropWhile (\<lambda>c. c \<in> set chars) s"

text \<open>
  \<^verbatim>\<open>s.replace(old, new)\<close>: scans from the left and replaces every occurrence of \<open>old\<close>,
  resuming after each replaced occurrence.
\<close>

fun replace_py :: "string \<Rightarrow> string \<Rightarrow> string \<Rightarrow> string" where
  "replace_py old new [] = (if old = [] then new else [])"
| "replace_py old new (c # cs) =
     (if old = [] then new @ c # replace_py old new cs
      else if prefix old (c # cs) then new @ replace_py old new (drop (length old) (c # cs))
      else c # replace_py old new cs)"

text \<open>
  \<^verbatim>\<open>s.title()\<close> on ASCII text: a letter that follows a letter is lower-cased, any other
  letter is upper-cased, every other character is kept. Upper and lower case differ in
  bit 5 of the character code.
\<close>

definition is_lower :: "char \<Rightarrow> bool" where
  "is_lower c = (97 \<le> (of_char c :: nat) \<and> (of_char c :: nat) \<le> 122)"

definition is_upper :: "char \<Rightarrow> bool" where
  "is_upper c = (65 \<le> (of_char c :: nat) \<and> (of_char c :: nat) \<le> 90)"

fun set_bit5 :: "bool \<Rightarrow> char \<Rightarrow> char" where
  "set_bit5 b (Char b0 b1 b2 b3 b4 b5 b6 b7) = Char b0 b1 b2 b3 b4 b b6 b7"

fun title_from :: "bool \<Rightarrow> string \<Rightarrow> string" where
  "title_from previous_is_cased [] = []"
| "title_from previous_is_cased (c # cs) =
     (if is_lower c then (if previous_is_cased then c else set_bit5 False c) # title_from True cs
      else if is_upper c then (if previous_is_cased then set_bit5 True c else c) # title_from True cs
      else c # title_from False cs)"

definition title :: "string \<Rightarrow> string" where
  "title s = title_from False s"

section \<open>generate-catalog-from-releases.py\<close>

subsection \<open>parse\_plugin\_release\<close>

definition platforms :: "string list" where
  "platforms = [''darwin-amd64'', ''darwin-arm64'', ''linux-amd64'', ''linux-arm64'']"

text \<open>
  The dictionary literal of lines 49--52: \<^verbatim>\<open>asset['url']\<close> is read first, then
  \<^verbatim>\<open>asset['url'].replace('.plugin', '.plugin.sha256')\<close>.
\<close>

definition download_entry :: "pyval \<Rightarrow> pyerr + pyval" where
  "download_entry asset =
     and_then (py_getitem asset ''url'') (\<lambda>url.
     and_then (py_getitem asset ''url'') (\<lambda>url2.
     and_then (str_receiver url2) (\<lambda>u.
       Inr (PDict [(''url'', url),
                   (''checksumUrl'', PStr (replace_py ''.plugin'' ''.plugin.sha256'' u))]))))"

text \<open>
  The inner loop of lines 47--52 over the platform list; \<open>downloads[platform] = ...\<close>
  replaces the value of a key already present and appends a new key otherwise.
\<close>

fun platform_loop :: "pyval \<Rightarrow> string \<Rightarrow> string list \<Rightarrow> (string \<times> pyval) list
    \<Rightarrow> pyerr + (string \<times> pyval) list" where
  "platform_loop asset name [] downloads = Inr downloads"
| "platform_loop asset name (platform # rest) downloads =
     (if sublist platform name
      then and_then (download_entry asset) (\<lambda>entry.
             platform_loop asset name rest (AList.update platform entry downloads))
      else platform_loop asset name rest downloads)"

text \<open>The loop of lines 43--52 over the assets.\<close>

fun asset_loop :: "pyval list \<Rightarrow> (string \<times> pyval) list \<Rightarrow> pyerr + (string \<times> pyval) list" where
  "asset_loop [] downloads = Inr downloads"
| "asset_loop (asset # rest) downloads =
     and_then (py_getitem asset ''name'') (\<lambda>name_v.
     and_then (str_receiver name_v) (\<lambda>name.
       if suffix ''.plugin'' name
       then and_then (platform_loop asset name platforms downloads) (\<lambda>downloads'.
              asset_loop rest downloads')
       else asset_loop rest downloads))"

text \<open>Lines 40--52: the assets of the release, scanned from an empty dictionary.\<close>

definition scan_assets :: "pyval \<Rightarrow> pyerr + (string \<times> pyval) list" where
  "scan_assets release =
     and_then (py_get release ''assets'' (PList [])) (\<lambda>assets.
     and_then (py_iter assets) (\<lambda>as. asset_loop as []))"

text \<open>
  Line 59: \<^verbatim>\<open>release.get('body', '').split('\n')[0] if release.get('body') else ''\<close>.
\<close>

definition description_of :: "pyval \<Rightarrow> pyerr + string" where
  "description_of release =
     and_then (py_get release ''body'' PNone) (\<lambda>b.
       if py_truthy b
       then and_then (py_get release ''body'' (PStr [])) (\<lambda>body.
            and_then (str_receiver body) (\<lambda>s. py_index (split_py (CHR 0x0A) s) 0))
       else Inr [])"

definition parse_plugin_release :: "pyval \<Rightarrow> pyerr + pyval" where
  "parse_plugin_release release =
     and_then (py_getitem release ''tagName'') (\<lambda>tag_v.
     and_then (str_receiver tag_v) (\<lambda>tag.
       let parts = split_py CHR ''-'' tag in
       if length parts < 3 then Inr PNone
       else
         and_then (py_index parts 1) (\<lambda>plugin_id.
         and_then (py_index parts 2) (\<lambda>part2.
         and_then (scan_assets release) (\<lambda>downloads.
           if downloads = [] then Inr PNone
           else
             and_then (description_of release) (\<lambda>description.
             and_then (py_get release ''publishedAt'' (PStr [])) (\<lambda>published.
               Inr (PDict
                 [(''id'', PStr plugin_id),
                  (''name'', PStr (title (replace_py ''-'' '' '' plugin_id))),
                  (''version'', PStr (lstrip ''v'' part2)),
                  (''official'', PBool True),
                  (''downloads'', PDict downloads),
                  (''metadata'', PDict [(''description'', PStr description),
                                        (''publishedAt'', published)])]))))))))"

subsection \<open>get\_plugin\_releases\<close>

text \<open>
  What \<^verbatim>\<open>subprocess.run(cmd, capture_output=True, text=True)\<close> returns. The call itself
  and \<^verbatim>\<open>json.loads\<close> are taken as parameters \<open>run\<close> and \<open>loads\<close> of the functions below;
  each may raise.
\<close>

record completed_process =
  returncode :: int
  stdout :: string
  stderr :: string

text \<open>The filter loop of lines 21--24.\<close>

fun filter_loop :: "pyval list \<Rightarrow> pyval list \<Rightarrow> pyerr + pyval list" where
  "filter_loop [] plugin_releases = Inr plugin_releases"
| "filter_loop (release # rest) plugin_releases =
     and_then (py_getitem release ''tagName'') (\<lambda>tag_v.
     and_then (str_receiver tag_v) (\<lambda>tag.
       filter_loop rest
         (if prefix ''plugin-'' tag then plugin_releases @ [release] else plugin_releases)))"

definition get_plugin_releases ::
    "pyerr + completed_process \<Rightarrow> (string \<Rightarrow> pyerr + pyval) \<Rightarrow> pyerr + pyval list" where
  "get_plugin_releases run loads =
     and_then run (\<lambda>result.
       if returncode result \<noteq> 0
       then Inl (Exception_raised (''Failed to get releases: '' @ stderr result))
       else and_then (loads (stdout result)) (\<lambda>releases.
            and_then (py_iter releases) (\<lambda>rs. filter_loop rs [])))"

subsection \<open>generate\_catalog\<close>

text \<open>The loop of lines 77--80; \<^verbatim>\<open>if plugin:\<close> tests the truth value of the parse result.\<close>

fun parse_loop :: "pyval list \<Rightarrow> pyval list \<Rightarrow> pyerr + pyval list" where
  "parse_loop [] plugins = Inr plugins"
| "parse_loop (release # rest) plugins =
     and_then (parse_plugin_release release) (\<lambda>plugin.
       parse_loop rest (if py_truthy plugin then plugins @ [plugin] else plugins))"

text \<open>\<open>now\<close> is the text of \<^verbatim>\<open>datetime.utcnow().isoformat()\<close>.\<close>

definition generate_catalog ::
    "pyerr + completed_process \<Rightarrow> (string \<Rightarrow> pyerr + pyval) \<Rightarrow> string \<Rightarrow> pyerr + pyval" where
  "generate_catalog run loads now =
     and_then (get_plugin_releases run loads) (\<lambda>releases.
     and_then (parse_loop releases []) (\<lambda>plugins.
       Inr (PDict
         [(''version'', PStr ''1.0''),
          (''updated'', PStr (now @ ''Z'')),
          (''baseUrl'', PStr ''https://github.com/blackhole-pro/blackhole/releases/download''),
          (''plugins'', PList plugins)])))"

subsection \<open>The script\<close>

text \<open>
  What a script leaves behind: the lines printed on each stream and the exit code.
  \<open>Json_dump v\<close> is the text \<^verbatim>\<open>json.dumps(v, indent=2)\<close>. \<open>str_exc\<close> is \<^verbatim>\<open>str(e)\<close> of a
  caught exception: the message of an exception made by the script or a library, and the
  interpreter's own text \<open>interp e\<close> otherwise.
\<close>

datatype printed = Json_dump pyval | Line string

record outcome =
  standard_output :: "printed list"
  standard_error :: "printed list"
  exit_code :: int

fun str_exc :: "(pyerr \<Rightarrow> string) \<Rightarrow> pyerr \<Rightarrow> string" where
  "str_exc interp (Exception_raised m) = m"
| "str_exc interp (External m) = m"
| "str_exc interp e = interp e"

text \<open>Lines 91--97: \<^verbatim>\<open>print(f"Error: {e}")\<close> has no \<^verbatim>\<open>file=\<close> argument.\<close>

definition main ::
    "pyerr + completed_process \<Rightarrow> (string \<Rightarrow> pyerr + pyval) \<Rightarrow> string \<Rightarrow> (pyerr \<Rightarrow> string)
      \<Rightarrow> outcome" where
  "main run loads now interp =
     (case generate_catalog run loads now of
        Inr catalog \<Rightarrow>
          \<lparr>standard_output = [Json_dump catalog], standard_error = [], exit_code = 0\<rparr>
      | Inl e \<Rightarrow>
          \<lparr>standard_output = [Line (''Error: '' @ str_exc interp e)], standard_error = [],
           exit_code = 1\<rparr>)"

section \<open>convert-plugin-manifest.py\<close>

text \<open>
  \<open>load path\<close> is \<^verbatim>\<open>yaml.safe_load\<close> of the opened file, \<open>fmt\<close> is the text an f-string
  inserts for an object (\<^verbatim>\<open>str\<close>), \<open>now\<close> the time text as above. The entries of the
  dictionary literal are evaluated in the order written.
\<close>

definition convert_manifest ::
    "(string \<Rightarrow> pyerr + pyval) \<Rightarrow> (pyval \<Rightarrow> string) \<Rightarrow> string \<Rightarrow> string \<Rightarrow> pyerr + pyval" where
  "convert_manifest load fmt now manifest_path =
     and_then (load manifest_path) (\<lambda>manifest.
     and_then (py_get manifest ''metadata'' (PDict [])) (\<lambda>metadata.
     and_then (py_get manifest ''spec'' (PDict [])) (\<lambda>spec.
     and_then (py_get metadata ''name'' PNone) (\<lambda>entry_id.
     and_then (py_get metadata ''name'' PNone) (\<lambda>fallback.
     and_then (py_get spec ''displayName'' fallback) (\<lambda>entry_name.
     and_then (py_get spec ''version'' PNone) (\<lambda>version.
     and_then (py_get spec ''description'' (PStr [])) (\<lambda>description.
     and_then (py_get spec ''category'' (PStr ''uncategorized'')) (\<lambda>category.
     and_then (py_get spec ''author'' (PDict [])) (\<lambda>author.
     and_then (py_get spec ''license'' (PStr ''MIT'')) (\<lambda>license.
     and_then (py_get metadata ''name'' PNone) (\<lambda>url_name.
     and_then (py_get spec ''version'' PNone) (\<lambda>url_version.
     and_then (py_get spec ''repository'' (PStr ''https://github.com/blackhole-pro/blackhole''))
       (\<lambda>repository.
     and_then (py_get spec ''documentation'' (PStr [])) (\<lambda>documentation.
     and_then (py_get spec ''keywords'' (PList [])) (\<lambda>keywords.
     and_then (py_get spec ''requirements'' (PDict [])) (\<lambda>requirements.
     and_then (py_get spec ''capabilities'' (PList [])) (\<lambda>capabilities.
     and_then (py_get spec ''resources'' (PDict [])) (\<lambda>resources.
       Inr (PDict
         [(''id'', entry_id),
          (''name'', entry_name),
          (''version'', version),
          (''description'', description),
          (''category'', category),
          (''author'', author),
          (''license'', license),
          (''source'', PDict
             [(''type'', PStr ''release''),
              (''url'', PStr (''https://github.com/blackhole-pro/blackhole/releases/tag/plugin-''
                              @ fmt url_name @ ''-v'' @ fmt url_version))]),
          (''repository'', repository),
          (''documentation'', documentation),
          (''keywords'', keywords),
          (''requirements'', requirements),
          (''capabilities'', capabilities),
          (''resources'', resources),
          (''stats'', PDict [(''updated'', PStr (now @ ''Z''))])]))))))))))))))))))))"

text \<open>Lines 45--55: errors go to standard error (\<^verbatim>\<open>file=sys.stderr\<close>).\<close>

definition convert_main ::
    "string list \<Rightarrow> (string \<Rightarrow> pyerr + pyval) \<Rightarrow> (pyval \<Rightarrow> string) \<Rightarrow> string
      \<Rightarrow> (pyerr \<Rightarrow> string) \<Rightarrow> outcome" where
  "convert_main argv load fmt now interp =
     (if length argv \<noteq> 2
      then \<lparr>standard_output = [],
            standard_error = [Line ''Usage: convert-plugin-manifest.py <plugin.yaml>''],
            exit_code = 1\<rparr>
      else (case and_then (py_index argv 1) (convert_manifest load fmt now) of
              Inr result \<Rightarrow>
                \<lparr>standard_output = [Json_dump result], standard_error = [], exit_code = 0\<rparr>
            | Inl e \<Rightarrow>
                \<lparr>standard_output = [], standard_error = [Line (''Error: '' @ str_exc interp e)],
                 exit_code = 1\<rparr>))"

section \<open>Readings of the specification and sample inputs\<close>

text \<open>
  The specification reads \<open>checksumUrl\<close> as the url with the first occurrence of
  \<open>.plugin\<close> replaced: \<open>replace_first\<close> replaces the leftmost occurrence of \<open>old\<close> only,
  and \<open>occurrences\<close> counts the positions of \<open>s\<close> at which \<open>old\<close> occurs.
\<close>

fun replace_first :: "string \<Rightarrow> string \<Rightarrow> string \<Rightarrow> string" where
  "replace_first old new [] = (if old = [] then new else [])"
| "replace_first old new (c # cs) =
     (if prefix old (c # cs) then new @ drop (length old) (c # cs)
      else c # replace_first old new cs)"

fun occurrences :: "string \<Rightarrow> string \<Rightarrow> nat" where
  "occurrences old [] = (if old = [] then 1 else 0)"
| "occurrences old (c # cs) = (if prefix old (c # cs) then 1 else 0) + occurrences old cs"

text \<open>
  The specification reads \<open>version\<close> as the third part of the tag without its first
  character, when that character is \<open>v\<close>.
\<close>

definition strip_one_v :: "string \<Rightarrow> string" where
  "strip_one_v s = (case s of [] \<Rightarrow> [] | c # cs \<Rightarrow> if c = CHR ''v'' then cs else s)"

text \<open>The dictionary literal of lines 63--70, by the values that vary.\<close>

definition entry_fields ::
    "string \<Rightarrow> string \<Rightarrow> (string \<times> pyval) list \<Rightarrow> string \<Rightarrow> pyval \<Rightarrow> (string \<times> pyval) list" where
  "entry_fields plugin_id part2 downloads description published =
     [(''id'', PStr plugin_id),
      (''name'', PStr (title (replace_py ''-'' '' '' plugin_id))),
      (''version'', PStr (lstrip ''v'' part2)),
      (''official'', PBool True),
      (''downloads'', PDict downloads),
      (''metadata'', PDict [(''description'', PStr description),
                            (''publishedAt'', published)])]"

text \<open>
  Sample inputs: the release and asset of the scenario of the specification with the entry
  it gives, an asset under a directory named \<open>my.plugins\<close>, and a release whose version
  part starts with two \<open>v\<close>.
\<close>

definition node_asset :: pyval where
  "node_asset = PDict [(''name'', PStr ''node-linux-amd64.plugin''),
                       (''url'', PStr ''https://x/node-linux-amd64.plugin'')]"

definition node_entry :: pyval where
  "node_entry = PDict [(''url'', PStr ''https://x/node-linux-amd64.plugin''),
                       (''checksumUrl'', PStr ''https://x/node-linux-amd64.plugin.sha256'')]"

definition nested_asset :: pyval where
  "nested_asset = PDict [(''name'', PStr ''node-linux-amd64.plugin''),
                         (''url'', PStr ''https://x/my.plugins/node-linux-amd64.plugin'')]"

definition vv_release :: pyval where
  "vv_release = PDict
     [(''tagName'', PStr ''plugin-node-vv1.2.0''),
      (''assets'', PList [node_asset])]"

definition node_release :: pyval where
  "node_release = PDict
     [(''tagName'', PStr ''plugin-node-v1.2.0''),
      (''assets'', PList [node_asset])]"

definition node_fields :: "string \<Rightarrow> (string \<times> pyval) list" where
  "node_fields version =
     [(''id'', PStr ''node''),
      (''name'', PStr ''Node''),
      (''version'', PStr version),
      (''official'', PBool True),
      (''downloads'', PDict [(''linux-amd64'', node_entry)]),
      (''metadata'', PDict [(''description'', PStr []), (''publishedAt'', PStr [])])]"

text \<open>
  An asset is recorded under platform key \<open>k\<close> when its name is a string that ends with
  \<open>.plugin\<close> and contains \<open>k\<close>.
\<close>

definition names_platform :: "string \<Rightarrow> pyval \<Rightarrow> bool" where
  "names_platform k asset =
     (k \<in> set platforms \<and>
      (case py_getitem asset ''name'' of
         Inr (PStr name) \<Rightarrow> suffix ''.plugin'' name \<and> sublist k name
       | _ \<Rightarrow> False))"

text \<open>
  Sample inputs: an asset whose name contains two platform keys, a second asset for one of
  these keys, and releases holding the first or both.
\<close>

definition universal_asset :: pyval where
  "universal_asset = PDict [(''name'', PStr ''node-darwin-amd64-linux-arm64.plugin''),
                            (''url'', PStr ''https://x/node-universal.plugin'')]"

definition universal_entry :: pyval where
  "universal_entry = PDict [(''url'', PStr ''https://x/node-universal.plugin''),
                            (''checksumUrl'', PStr ''https://x/node-universal.plugin.sha256'')]"

definition arm_asset :: pyval where
  "arm_asset = PDict [(''name'', PStr ''node-linux-arm64.plugin''),
                      (''url'', PStr ''https://x/node-linux-arm64.plugin'')]"

definition arm_entry :: pyval where
  "arm_entry = PDict [(''url'', PStr ''https://x/node-linux-arm64.plugin''),
                      (''checksumUrl'', PStr ''https://x/node-linux-arm64.plugin.sha256'')]"

definition universal_release :: pyval where
  "universal_release = PDict
     [(''tagName'', PStr ''plugin-node-v1.2.0''),
      (''assets'', PList [universal_asset])]"

definition overwriting_release :: pyval where
  "overwriting_release = PDict
     [(''tagName'', PStr ''plugin-node-v1.2.0''),
      (''assets'', PList [universal_asset, arm_asset])]"

text \<open>The tag of a release as both loops read it: \<^verbatim>\<open>release['tagName']\<close>, used as a string.\<close>

definition release_tag :: "pyval \<Rightarrow> pyerr + string" where
  "release_tag release = and_then (py_getitem release ''tagName'') str_receiver"

text \<open>The two loops without their accumulators.\<close>

fun qualifying :: "pyval list \<Rightarrow> pyerr + pyval list" where
  "qualifying [] = Inr []"
| "qualifying (release # rest) =
     and_then (release_tag release) (\<lambda>tag.
     and_then (qualifying rest) (\<lambda>out.
       Inr (if prefix ''plugin-'' tag then release # out else out)))"

fun entries :: "pyval list \<Rightarrow> pyerr + pyval list" where
  "entries [] = Inr []"
| "entries (release # rest) =
     and_then (parse_plugin_release release) (\<lambda>plugin.
     and_then (entries rest) (\<lambda>out.
       Inr (if py_truthy plugin then plugin # out else out)))"

text \<open>A release that passes the filter and parses to an entry.\<close>

definition yields_entry :: "pyval \<Rightarrow> bool" where
  "yields_entry release =
     (case release_tag release of
        Inl e \<Rightarrow> False
      | Inr tag \<Rightarrow>
          prefix ''plugin-'' tag \<and>
          (case parse_plugin_release release of Inl e \<Rightarrow> False | Inr plugin \<Rightarrow> py_truthy plugin))"

text \<open>
  Sample inputs: releases that the script leaves out (a tag without the prefix, a tag of two
  parts, no \<open>.plugin\<close> asset), a listing command that succeeded, and a decoder that gives
  the scenario's release, an extra release and a third one for the text \<open>long\<close>, and the
  same without the extra release for any other text.
\<close>

definition untagged_release :: pyval where
  "untagged_release = PDict [(''tagName'', PStr ''v1.0.0''), (''assets'', PList [node_asset])]"

definition short_release :: pyval where
  "short_release = PDict [(''tagName'', PStr ''plugin-foo''), (''assets'', PList [node_asset])]"

definition text_asset :: pyval where
  "text_asset = PDict [(''name'', PStr ''bar.txt''), (''url'', PStr ''https://x/bar.txt'')]"

definition bare_release :: pyval where
  "bare_release = PDict [(''tagName'', PStr ''plugin-bar-v2.0.0''), (''assets'', PList [text_asset])]"

definition listing :: completed_process where
  "listing = \<lparr>returncode = 0, stdout = ''long'', stderr = []\<rparr>"

definition sample_loads :: "pyval \<Rightarrow> string \<Rightarrow> pyerr + pyval" where
  "sample_loads extra text =
     (if text = ''long'' then Inr (PList [node_release, extra, vv_release])
      else Inr (PList [node_release, vv_release]))"

text \<open>What the script does with a listing that was run and decoded to a list.\<close>

definition collected :: "pyval list \<Rightarrow> pyerr + pyval list" where
  "collected releases = and_then (qualifying releases) entries"

text \<open>The catalog of the two sample releases that yield an entry.\<close>

definition sample_now :: string where
  "sample_now = ''2024-01-01T00:00:00''"

definition sample_catalog :: pyval where
  "sample_catalog = PDict
     [(''version'', PStr ''1.0''),
      (''updated'', PStr ''2024-01-01T00:00:00Z''),
      (''baseUrl'', PStr ''https://github.com/blackhole-pro/blackhole/releases/download''),
      (''plugins'', PList [PDict (node_fields ''1.2.0''), PDict (node_fields ''1.2.0'')])]"

text \<open>A listing command that ended with code 1, and the manifest of the specification's scenario.\<close>

definition failed_listing :: "string \<Rightarrow> string \<Rightarrow> completed_process" where
  "failed_listing out diagnostic = \<lparr>returncode = 1, stdout = out, stderr = diagnostic\<rparr>"



text \<open>
  The shapes of section 3 of the specification. A field of a dictionary that is absent
  reads as \<^verbatim>\<open>None\<close> in \<open>field\<close>; \<open>nullable_str\<close> is a field that is absent, null or a
  string.
\<close>

definition is_str :: "pyval \<Rightarrow> bool" where
  "is_str v = (case v of PStr s \<Rightarrow> True | _ \<Rightarrow> False)"

definition field :: "(string \<times> pyval) list \<Rightarrow> string \<Rightarrow> pyval" where
  "field kvs k = (case map_of kvs k of None \<Rightarrow> PNone | Some v \<Rightarrow> v)"

definition nullable_str :: "pyval option \<Rightarrow> bool" where
  "nullable_str f = (case f of None \<Rightarrow> True | Some v \<Rightarrow> v = PNone \<or> is_str v)"

definition asset_shape :: "pyval \<Rightarrow> bool" where
  "asset_shape asset =
     (case asset of
        PDict kvs \<Rightarrow>
          (case map_of kvs ''name'' of None \<Rightarrow> False | Some v \<Rightarrow> is_str v) \<and>
          (case map_of kvs ''url'' of None \<Rightarrow> False | Some v \<Rightarrow> is_str v)
      | _ \<Rightarrow> False)"

definition release_shape :: "pyval \<Rightarrow> bool" where
  "release_shape release =
     (case release of
        PDict kvs \<Rightarrow>
          (case map_of kvs ''tagName'' of None \<Rightarrow> False | Some v \<Rightarrow> is_str v) \<and>
          nullable_str (map_of kvs ''body'') \<and>
          nullable_str (map_of kvs ''publishedAt'') \<and>
          (case map_of kvs ''assets'' of
             None \<Rightarrow> True
           | Some (PList assets) \<Rightarrow> list_all asset_shape assets
           | Some _ \<Rightarrow> False)
      | _ \<Rightarrow> False)"

definition download_shape :: "pyval \<Rightarrow> bool" where
  "download_shape d =
     (case d of
        PDict kvs \<Rightarrow>
          map fst kvs = [''url'', ''checksumUrl''] \<and>
          is_str (field kvs ''url'') \<and> is_str (field kvs ''checksumUrl'')
      | _ \<Rightarrow> False)"

definition downloads_ok :: "(string \<times> pyval) list \<Rightarrow> bool" where
  "downloads_ok dl =
     (distinct (map fst dl) \<and>
      list_all (\<lambda>kv. fst kv \<in> set platforms \<and> download_shape (snd kv)) dl)"

text \<open>
  An entry with the six keys in the order of the specification; \<open>published_ok\<close> says what
  \<open>metadata.publishedAt\<close> may be. A CatalogPluginEntry has a string there.
\<close>

definition entry_shape :: "(pyval \<Rightarrow> bool) \<Rightarrow> pyval \<Rightarrow> bool" where
  "entry_shape published_ok v =
     (case v of
        PDict kvs \<Rightarrow>
          map fst kvs = [''id'', ''name'', ''version'', ''official'', ''downloads'', ''metadata''] \<and>
          is_str (field kvs ''id'') \<and> is_str (field kvs ''name'') \<and>
          is_str (field kvs ''version'') \<and>
          field kvs ''official'' = PBool True \<and>
          (case field kvs ''downloads'' of
             PDict dl \<Rightarrow> dl \<noteq> [] \<and> downloads_ok dl
           | _ \<Rightarrow> False) \<and>
          (case field kvs ''metadata'' of
             PDict md \<Rightarrow>
               map fst md = [''description'', ''publishedAt''] \<and>
               is_str (field md ''description'') \<and> published_ok (field md ''publishedAt'')
           | _ \<Rightarrow> False)
      | _ \<Rightarrow> False)"

definition catalog_plugin_entry :: "pyval \<Rightarrow> bool" where
  "catalog_plugin_entry v = entry_shape is_str v"

definition str_or_null :: "pyval \<Rightarrow> bool" where
  "str_or_null v = (v = PNone \<or> is_str v)"





section \<open>Results and string methods\<close>

lemma and_then_Inr_iff: "and_then r f = Inr y \<longleftrightarrow> (\<exists>x. r = Inr x \<and> f x = Inr y)"
  by (cases r) auto

lemma split_py_not_Nil: "split_py sep s \<noteq> []"
  by (induction s) (auto split: list.splits)

lemma replace_py_no_occurrence:
  "old \<noteq> [] \<Longrightarrow> occurrences old s = 0 \<Longrightarrow> replace_py old new s = s"
  by (induction s) (auto split: if_splits)

lemma occurrences_drop: "old \<noteq> [] \<Longrightarrow> occurrences old (drop n s) \<le> occurrences old s"
proof (induction s arbitrary: n)
  case Nil
  then show ?case by simp
next
  case (Cons c cs)
  show ?case
  proof (cases n)
    case 0
    then show ?thesis by simp
  next
    case (Suc m)
    have "occurrences old (drop m cs) \<le> occurrences old cs"
      using Cons by blast
    then show ?thesis using Suc by simp
  qed
qed

lemma replace_py_single_occurrence:
  assumes "old \<noteq> []" and "occurrences old s \<le> 1"
  shows "replace_py old new s = replace_first old new s"
  using assms(2)
proof (induction s)
  case Nil
  then show ?case using assms(1) by simp
next
  case (Cons c cs)
  show ?case
  proof (cases "prefix old (c # cs)")
    case True
    then have "occurrences old cs = 0" using Cons.prems by simp
    moreover have "drop (length old) (c # cs) = drop (length old - 1) cs"
      using assms(1) by (cases old) auto
    ultimately have "occurrences old (drop (length old) (c # cs)) = 0"
      using occurrences_drop [OF assms(1), of "length old - 1" cs] by simp
    then have "replace_py old new (drop (length old) (c # cs)) = drop (length old) (c # cs)"
      using assms(1) by (simp add: replace_py_no_occurrence)
    then show ?thesis using True assms(1) by simp
  next
    case False
    then have "occurrences old cs \<le> 1" using Cons.prems by simp
    then show ?thesis using False assms(1) Cons.IH by simp
  qed
qed

lemma lstrip_v: "lstrip ''v'' s = dropWhile (\<lambda>c. c = CHR ''v'') s"
  by (simp add: lstrip_def)

lemma dropWhile_replicate: "\<exists>n. s = replicate n x @ dropWhile (\<lambda>c. c = x) s"
proof (induction s)
  case Nil
  then show ?case by simp
next
  case (Cons c cs)
  then obtain n where n: "cs = replicate n x @ dropWhile (\<lambda>c. c = x) cs" by blast
  show ?case
  proof (cases "c = x")
    case True
    then have "c # cs = replicate (Suc n) x @ dropWhile (\<lambda>c. c = x) (c # cs)"
      using n by simp
    then show ?thesis by blast
  next
    case False
    then have "c # cs = replicate 0 x @ dropWhile (\<lambda>c. c = x) (c # cs)" by simp
    then show ?thesis by blast
  qed
qed

lemma lstrip_v_replicate: "\<exists>n. s = replicate n CHR ''v'' @ lstrip ''v'' s"
  unfolding lstrip_v by (rule dropWhile_replicate)

lemma lstrip_v_no_v: "\<not> prefix ''v'' (lstrip ''v'' s)"
  unfolding lstrip_v by (induction s) auto

lemma lstrip_v_single: "\<not> prefix ''vv'' s \<Longrightarrow> lstrip ''v'' s = strip_one_v s"
  unfolding lstrip_v strip_one_v_def
  by (cases s) (auto simp: dropWhile_eq_self_iff neq_Nil_conv split: list.splits)

section \<open>Download entries\<close>

lemma download_entry_Inr:
  assumes "download_entry asset = Inr entry"
  shows "\<exists>u. py_getitem asset ''url'' = Inr (PStr u) \<and>
    entry = PDict [(''url'', PStr u),
                   (''checksumUrl'', PStr (replace_py ''.plugin'' ''.plugin.sha256'' u))]"
proof -
  obtain url where url: "py_getitem asset ''url'' = Inr url"
    using assms by (cases "py_getitem asset ''url''") (simp_all add: download_entry_def)
  obtain u where u: "url = PStr u"
    using assms url by (cases url) (simp_all add: download_entry_def)
  have "entry = PDict [(''url'', PStr u),
                   (''checksumUrl'', PStr (replace_py ''.plugin'' ''.plugin.sha256'' u))]"
    using assms url u by (simp add: download_entry_def)
  with url u show ?thesis by simp
qed

lemma download_entry_url:
  "py_getitem asset ''url'' = Inr (PStr u) \<Longrightarrow>
   download_entry asset = Inr (PDict [(''url'', PStr u),
     (''checksumUrl'', PStr (replace_py ''.plugin'' ''.plugin.sha256'' u))])"
  by (simp add: download_entry_def)

lemma download_entry_node_asset: "download_entry node_asset = Inr node_entry"
  by (simp add: download_entry_def node_asset_def node_entry_def)

text \<open>
  C1 (amended). The entry built from an asset holds the asset's url and, as checksumUrl,
  that url with every occurrence of \<open>.plugin\<close> replaced by \<open>.plugin.sha256\<close>, as
  \<^verbatim>\<open>str.replace\<close> does; where \<open>.plugin\<close> occurs at most once this is the replacement
  of the first occurrence.
\<close>

theorem C1_checksum_replaces_every_occurrence:
  assumes "download_entry asset = Inr entry"
  shows "\<exists>u. py_getitem asset ''url'' = Inr (PStr u) \<and>
    entry = PDict [(''url'', PStr u),
                   (''checksumUrl'', PStr (replace_py ''.plugin'' ''.plugin.sha256'' u))] \<and>
    (occurrences ''.plugin'' u \<le> 1 \<longrightarrow>
       replace_py ''.plugin'' ''.plugin.sha256'' u = replace_first ''.plugin'' ''.plugin.sha256'' u)"
proof -
  from download_entry_Inr [OF assms] obtain u where
    u: "py_getitem asset ''url'' = Inr (PStr u) \<and>
      entry = PDict [(''url'', PStr u),
                   (''checksumUrl'', PStr (replace_py ''.plugin'' ''.plugin.sha256'' u))]"
    by (elim exE)
  have "occurrences ''.plugin'' u \<le> 1 \<longrightarrow>
       replace_py ''.plugin'' ''.plugin.sha256'' u = replace_first ''.plugin'' ''.plugin.sha256'' u"
    using replace_py_single_occurrence [of "''.plugin''" u "''.plugin.sha256''"] by simp
  with u show ?thesis by (intro exI [of _ u]) simp
qed

theorem C1_witness:
  "download_entry node_asset = Inr node_entry \<and>
   (\<exists>u. py_getitem node_asset ''url'' = Inr (PStr u) \<and>
      node_entry = PDict [(''url'', PStr u),
                   (''checksumUrl'', PStr (replace_py ''.plugin'' ''.plugin.sha256'' u))] \<and>
      occurrences ''.plugin'' u \<le> 1 \<and>
      replace_py ''.plugin'' ''.plugin.sha256'' u = replace_first ''.plugin'' ''.plugin.sha256'' u)"
proof -
  from C1_checksum_replaces_every_occurrence [OF download_entry_node_asset]
  obtain u where u: "py_getitem node_asset ''url'' = Inr (PStr u)"
    and e: "node_entry = PDict [(''url'', PStr u),
                   (''checksumUrl'', PStr (replace_py ''.plugin'' ''.plugin.sha256'' u))]"
    and r: "occurrences ''.plugin'' u \<le> 1 \<longrightarrow>
       replace_py ''.plugin'' ''.plugin.sha256'' u = replace_first ''.plugin'' ''.plugin.sha256'' u"
    by (elim exE conjE)
  from u have "u = ''https://x/node-linux-amd64.plugin''"
    by (simp add: node_asset_def)
  then have o: "occurrences ''.plugin'' u \<le> 1" by simp
  with r have "replace_py ''.plugin'' ''.plugin.sha256'' u
      = replace_first ''.plugin'' ''.plugin.sha256'' u" by (rule mp)
  with u e o download_entry_node_asset show ?thesis
    by (intro conjI exI [of _ u])
qed

theorem C1_counterexample:
  "download_entry nested_asset =
     Inr (PDict [(''url'', PStr ''https://x/my.plugins/node-linux-amd64.plugin''),
                 (''checksumUrl'',
                  PStr ''https://x/my.plugin.sha256s/node-linux-amd64.plugin.sha256'')])
   \<and> replace_first ''.plugin'' ''.plugin.sha256'' ''https://x/my.plugins/node-linux-amd64.plugin''
       = ''https://x/my.plugin.sha256s/node-linux-amd64.plugin''
   \<and> download_entry nested_asset \<noteq>
     Inr (PDict [(''url'', PStr ''https://x/my.plugins/node-linux-amd64.plugin''),
                 (''checksumUrl'',
                  PStr (replace_first ''.plugin'' ''.plugin.sha256''
                          ''https://x/my.plugins/node-linux-amd64.plugin''))])"
  by (simp add: download_entry_def nested_asset_def)

section \<open>Parsing one release\<close>

lemma parse_plugin_release_entry:
  assumes "parse_plugin_release release = Inr (PDict entry)"
  obtains tag downloads description published where
    "py_getitem release ''tagName'' = Inr (PStr tag)"
    "3 \<le> length (split_py CHR ''-'' tag)"
    "scan_assets release = Inr downloads"
    "downloads \<noteq> []"
    "description_of release = Inr description"
    "py_get release ''publishedAt'' (PStr []) = Inr published"
    "entry = entry_fields (split_py CHR ''-'' tag ! 1) (split_py CHR ''-'' tag ! 2)
               downloads description published"
proof -
  note d = parse_plugin_release_def Let_def py_index_def
  obtain tag_v where tag_v: "py_getitem release ''tagName'' = Inr tag_v"
    using assms by (cases "py_getitem release ''tagName''") (simp_all add: d)
  obtain tag where tag: "tag_v = PStr tag"
    using assms tag_v by (cases tag_v) (simp_all add: d)
  have len: "3 \<le> length (split_py CHR ''-'' tag)"
    using assms tag_v tag by (simp add: d split: if_splits)
  obtain downloads where dl: "scan_assets release = Inr downloads"
    using assms tag_v tag len by (cases "scan_assets release") (simp_all add: d)
  have ne: "downloads \<noteq> []"
    using assms tag_v tag len dl by (simp add: d split: if_splits)
  obtain description where de: "description_of release = Inr description"
    using assms tag_v tag len dl ne by (cases "description_of release") (simp_all add: d)
  obtain published where pu: "py_get release ''publishedAt'' (PStr []) = Inr published"
    using assms tag_v tag len dl ne de
    by (cases "py_get release ''publishedAt'' (PStr [])") (simp_all add: d)
  have "entry = entry_fields (split_py CHR ''-'' tag ! 1) (split_py CHR ''-'' tag ! 2)
               downloads description published"
    using assms tag_v tag len dl ne de pu by (simp add: d entry_fields_def)
  with tag_v [unfolded tag] len dl ne de pu show ?thesis by (rule that)
qed

lemma parse_plugin_release_eval:
  assumes "py_getitem release ''tagName'' = Inr (PStr tag)"
    and "split_py CHR ''-'' tag = a # b # c # rest"
    and "scan_assets release = Inr downloads"
    and "downloads \<noteq> []"
    and "description_of release = Inr description"
    and "py_get release ''publishedAt'' (PStr []) = Inr published"
  shows "parse_plugin_release release =
    Inr (PDict (entry_fields b c downloads description published))"
  using assms by (simp add: parse_plugin_release_def py_index_def entry_fields_def)

lemma map_of_entry_fields:
  "map_of (entry_fields i p dl d pub) ''id'' = Some (PStr i)"
  "map_of (entry_fields i p dl d pub) ''version'' = Some (PStr (lstrip ''v'' p))"
  "map_of (entry_fields i p dl d pub) ''downloads'' = Some (PDict dl)"
  by (simp_all add: entry_fields_def)

text \<open>
  C2 (amended). The version of the entry is the third part of the tag with all its leading
  \<open>v\<close> characters removed: the part is some number of \<open>v\<close> followed by the version, which
  does not start with \<open>v\<close>. Where the part does not start with \<open>vv\<close>, this is the part
  with one leading \<open>v\<close> removed.
\<close>

theorem C2_version_strips_every_leading_v:
  assumes "parse_plugin_release release = Inr (PDict entry)"
  shows "\<exists>tag n version. py_getitem release ''tagName'' = Inr (PStr tag) \<and>
    3 \<le> length (split_py CHR ''-'' tag) \<and>
    map_of entry ''version'' = Some (PStr version) \<and>
    split_py CHR ''-'' tag ! 2 = replicate n CHR ''v'' @ version \<and>
    \<not> prefix ''v'' version \<and>
    (\<not> prefix ''vv'' (split_py CHR ''-'' tag ! 2) \<longrightarrow>
       version = strip_one_v (split_py CHR ''-'' tag ! 2))"
proof -
  from assms obtain tag downloads description published where
    tag: "py_getitem release ''tagName'' = Inr (PStr tag)"
    and len: "3 \<le> length (split_py CHR ''-'' tag)"
    and e: "entry = entry_fields (split_py CHR ''-'' tag ! 1) (split_py CHR ''-'' tag ! 2)
               downloads description published"
    by (rule parse_plugin_release_entry)
  define part2 where "part2 = split_py CHR ''-'' tag ! 2"
  have ver: "map_of entry ''version'' = Some (PStr (lstrip ''v'' part2))"
    unfolding e part2_def by (rule map_of_entry_fields)
  obtain n where n: "part2 = replicate n CHR ''v'' @ lstrip ''v'' part2"
    using lstrip_v_replicate [of part2] by (elim exE)
  have no_v: "\<not> prefix ''v'' (lstrip ''v'' part2)"
    by (rule lstrip_v_no_v)
  have single: "\<not> prefix ''vv'' part2 \<longrightarrow> lstrip ''v'' part2 = strip_one_v part2"
    by (simp add: lstrip_v_single)
  show ?thesis
    using tag len ver n no_v single unfolding part2_def
    by (intro exI [of _ tag] exI [of _ n] exI [of _ "lstrip ''v'' (split_py CHR ''-'' tag ! 2)"]
        conjI)
qed

lemma scan_node_asset: "asset_loop [node_asset] [] = Inr [(''linux-amd64'', node_entry)]"
  by (simp add: platforms_def download_entry_def node_asset_def node_entry_def
      suffix_to_prefix sublist_Cons_right)

lemma scan_node_release: "scan_assets node_release = Inr [(''linux-amd64'', node_entry)]"
  by (simp add: scan_assets_def node_release_def scan_node_asset del: asset_loop.simps)

lemma parse_node_release:
  "parse_plugin_release node_release = Inr (PDict (node_fields ''1.2.0''))"
proof -
  have "parse_plugin_release node_release =
      Inr (PDict (entry_fields ''node'' ''v1.2.0'' [(''linux-amd64'', node_entry)] [] (PStr [])))"
  proof (rule parse_plugin_release_eval)
    show "py_getitem node_release ''tagName'' = Inr (PStr ''plugin-node-v1.2.0'')"
      by (simp add: node_release_def)
    show "split_py CHR ''-'' ''plugin-node-v1.2.0'' = ''plugin'' # ''node'' # ''v1.2.0'' # []"
      by simp
    show "scan_assets node_release = Inr [(''linux-amd64'', node_entry)]"
      by (rule scan_node_release)
    show "[(''linux-amd64'', node_entry)] \<noteq> []"
      by simp
    show "description_of node_release = Inr []"
      by (simp add: description_of_def node_release_def)
    show "py_get node_release ''publishedAt'' (PStr []) = Inr (PStr [])"
      by (simp add: node_release_def)
  qed
  moreover have "entry_fields ''node'' ''v1.2.0'' [(''linux-amd64'', node_entry)] [] (PStr [])
      = node_fields ''1.2.0''"
    by (simp add: entry_fields_def node_fields_def title_def is_lower_def is_upper_def lstrip_def)
  ultimately show ?thesis by simp
qed

lemma parse_vv_release: "parse_plugin_release vv_release = Inr (PDict (node_fields ''1.2.0''))"
proof -
  have tag: "py_getitem vv_release ''tagName'' = Inr (PStr ''plugin-node-vv1.2.0'')"
    by (simp add: vv_release_def)
  have parts: "split_py CHR ''-'' ''plugin-node-vv1.2.0'' = [''plugin'', ''node'', ''vv1.2.0'']"
    by simp
  have scan: "scan_assets vv_release = Inr [(''linux-amd64'', node_entry)]"
    by (simp add: scan_assets_def vv_release_def scan_node_asset del: asset_loop.simps)
  have descr: "description_of vv_release = Inr []"
    by (simp add: description_of_def vv_release_def)
  have pub: "py_get vv_release ''publishedAt'' (PStr []) = Inr (PStr [])"
    by (simp add: vv_release_def)
  have name: "title ''node'' = ''Node''"
    by (simp add: title_def is_lower_def is_upper_def)
  have version: "lstrip ''v'' ''vv1.2.0'' = ''1.2.0''"
    by (simp add: lstrip_def)
  show ?thesis
    unfolding parse_plugin_release_def
    by (simp add: tag parts py_index_def scan descr pub name version node_fields_def)
qed

theorem C2_witness:
  "parse_plugin_release node_release = Inr (PDict (node_fields ''1.2.0'')) \<and>
   py_getitem node_release ''tagName'' = Inr (PStr ''plugin-node-v1.2.0'') \<and>
   3 \<le> length (split_py CHR ''-'' ''plugin-node-v1.2.0'') \<and>
   \<not> prefix ''vv'' (split_py CHR ''-'' ''plugin-node-v1.2.0'' ! 2) \<and>
   map_of (node_fields ''1.2.0'') ''version'' =
     Some (PStr (strip_one_v (split_py CHR ''-'' ''plugin-node-v1.2.0'' ! 2)))"
proof -
  from C2_version_strips_every_leading_v [OF parse_node_release]
  obtain tag n version where tag: "py_getitem node_release ''tagName'' = Inr (PStr tag)"
    and len: "3 \<le> length (split_py CHR ''-'' tag)"
    and ver: "map_of (node_fields ''1.2.0'') ''version'' = Some (PStr version)"
    and one: "\<not> prefix ''vv'' (split_py CHR ''-'' tag ! 2) \<longrightarrow>
       version = strip_one_v (split_py CHR ''-'' tag ! 2)"
    by (elim exE conjE)
  have t: "py_getitem node_release ''tagName'' = Inr (PStr ''plugin-node-v1.2.0'')"
    by (simp add: node_release_def)
  with tag have eq: "tag = ''plugin-node-v1.2.0''"
    by simp
  have no_vv: "\<not> prefix ''vv'' (split_py CHR ''-'' ''plugin-node-v1.2.0'' ! 2)"
    by simp
  with one have "version = strip_one_v (split_py CHR ''-'' ''plugin-node-v1.2.0'' ! 2)"
    unfolding eq by (rule mp)
  with ver have "map_of (node_fields ''1.2.0'') ''version'' =
     Some (PStr (strip_one_v (split_py CHR ''-'' ''plugin-node-v1.2.0'' ! 2)))"
    by simp
  with parse_node_release t len [unfolded eq] no_vv show ?thesis
    by (intro conjI)
qed

theorem C2_counterexample:
  "parse_plugin_release vv_release = Inr (PDict (node_fields ''1.2.0'')) \<and>
   map_of (node_fields ''1.2.0'') ''version'' = Some (PStr ''1.2.0'') \<and>
   split_py CHR ''-'' ''plugin-node-vv1.2.0'' ! 2 = ''vv1.2.0'' \<and>
   strip_one_v ''vv1.2.0'' = ''v1.2.0'' \<and>
   map_of (node_fields ''1.2.0'') ''version'' \<noteq>
     Some (PStr (strip_one_v (split_py CHR ''-'' ''plugin-node-vv1.2.0'' ! 2)))"
  using parse_vv_release by (simp add: node_fields_def strip_one_v_def)

lemma find_snoc:
  "List.find P (xs @ [x]) =
     (case List.find P xs of None \<Rightarrow> (if P x then Some x else None) | Some y \<Rightarrow> Some y)"
  by (induction xs) auto

lemma platform_loop_map_of:
  assumes "platform_loop asset name ps d = Inr d'"
  shows "if k \<in> set ps \<and> sublist k name
         then \<exists>e. download_entry asset = Inr e \<and> map_of d' k = Some e
         else map_of d' k = map_of d k"
  using assms
proof (induction ps arbitrary: d)
  case Nil
  then show ?case by simp
next
  case (Cons p ps)
  show ?case
  proof (cases "sublist p name")
    case True
    with Cons.prems obtain e where e: "download_entry asset = Inr e"
      and loop: "platform_loop asset name ps (AList.update p e d) = Inr d'"
      by (auto simp: and_then_Inr_iff)
    from Cons.IH [OF loop] e True show ?thesis
      by (auto simp: update_conv' split: if_splits)
  next
    case False
    with Cons.prems have "platform_loop asset name ps d = Inr d'" by simp
    from Cons.IH [OF this] False show ?thesis
      by (auto split: if_splits)
  qed
qed

lemma asset_loop_Cons_Inr:
  assumes "asset_loop (a # as) d = Inr d'"
  obtains name where "py_getitem a ''name'' = Inr (PStr name)"
    "(if suffix ''.plugin'' name
      then and_then (platform_loop a name platforms d) (\<lambda>downloads'. asset_loop as downloads')
      else asset_loop as d) = Inr d'"
proof -
  obtain name_v where nv: "py_getitem a ''name'' = Inr name_v"
    using assms by (cases "py_getitem a ''name''") simp_all
  obtain name where n: "name_v = PStr name"
    using assms nv by (cases name_v) simp_all
  have "(if suffix ''.plugin'' name
      then and_then (platform_loop a name platforms d) (\<lambda>downloads'. asset_loop as downloads')
      else asset_loop as d) = Inr d'"
    using assms nv n by simp
  with nv [unfolded n] show ?thesis by (rule that)
qed

lemma asset_loop_map_of:
  assumes "asset_loop as d = Inr d'"
  shows "case List.find (names_platform k) (rev as) of
           None \<Rightarrow> map_of d' k = map_of d k
         | Some a \<Rightarrow> \<exists>e. download_entry a = Inr e \<and> map_of d' k = Some e"
  using assms
proof (induction as arbitrary: d)
  case Nil
  then show ?case by simp
next
  case (Cons a as)
  from Cons.prems obtain name where name: "py_getitem a ''name'' = Inr (PStr name)"
    and rest: "(if suffix ''.plugin'' name
       then and_then (platform_loop a name platforms d) (\<lambda>downloads'. asset_loop as downloads')
       else asset_loop as d) = Inr d'"
    by (rule asset_loop_Cons_Inr)
  show ?case
  proof (cases "suffix ''.plugin'' name")
    case True
    with rest obtain d1 where d1: "platform_loop a name platforms d = Inr d1"
      and loop: "asset_loop as d1 = Inr d'"
      by (auto simp: and_then_Inr_iff)
    have np: "names_platform k a \<longleftrightarrow> k \<in> set platforms \<and> sublist k name"
      using name True by (simp add: names_platform_def)
    from platform_loop_map_of [OF d1, of k] Cons.IH [OF loop] np show ?thesis
      by (auto simp: find_snoc split: option.splits if_splits)
  next
    case False
    with rest have loop: "asset_loop as d = Inr d'" by simp
    have "\<not> names_platform k a"
      using name False by (simp add: names_platform_def)
    with Cons.IH [OF loop] show ?thesis
      by (auto simp: find_snoc split: option.splits)
  qed
qed

lemma scan_assets_Inr:
  assumes "scan_assets release = Inr downloads"
  shows "\<exists>assets. and_then (py_get release ''assets'' (PList [])) py_iter = Inr assets \<and>
    asset_loop assets [] = Inr downloads"
proof -
  obtain v where v: "py_get release ''assets'' (PList []) = Inr v"
    using assms by (cases "py_get release ''assets'' (PList [])") (simp_all add: scan_assets_def)
  obtain assets where a: "py_iter v = Inr assets"
    using assms v by (cases "py_iter v") (simp_all add: scan_assets_def)
  have "asset_loop assets [] = Inr downloads"
    using assms v a by (simp add: scan_assets_def)
  with v a show ?thesis by simp
qed

text \<open>
  C3 (amended). For every platform key, the downloads of the entry hold the DownloadEntry
  of the last asset whose name ends with \<open>.plugin\<close> and contains the key, and nothing
  when no asset does: an asset is recorded under every key its name contains, and a later
  asset replaces an earlier one under the same key.
\<close>

theorem C3_every_matching_platform_recorded:
  assumes "parse_plugin_release release = Inr (PDict entry)"
  shows "\<exists>assets downloads.
    and_then (py_get release ''assets'' (PList [])) py_iter = Inr assets \<and>
    map_of entry ''downloads'' = Some (PDict downloads) \<and>
    (\<forall>k. case List.find (names_platform k) (rev assets) of
            None \<Rightarrow> map_of downloads k = None
          | Some a \<Rightarrow> \<exists>e. download_entry a = Inr e \<and> map_of downloads k = Some e)"
proof -
  from assms obtain tag downloads description published where
    scan: "scan_assets release = Inr downloads"
    and e: "entry = entry_fields (split_py CHR ''-'' tag ! 1) (split_py CHR ''-'' tag ! 2)
               downloads description published"
    by (rule parse_plugin_release_entry)
  have dl: "map_of entry ''downloads'' = Some (PDict downloads)"
    unfolding e by (rule map_of_entry_fields)
  from scan_assets_Inr [OF scan] obtain assets where
    assets: "and_then (py_get release ''assets'' (PList [])) py_iter = Inr assets"
    and loop: "asset_loop assets [] = Inr downloads"
    by (elim exE conjE)
  have "\<forall>k. case List.find (names_platform k) (rev assets) of
            None \<Rightarrow> map_of downloads k = None
          | Some a \<Rightarrow> \<exists>e. download_entry a = Inr e \<and> map_of downloads k = Some e"
  proof
    fix k
    show "case List.find (names_platform k) (rev assets) of
            None \<Rightarrow> map_of downloads k = None
          | Some a \<Rightarrow> \<exists>e. download_entry a = Inr e \<and> map_of downloads k = Some e"
      using asset_loop_map_of [OF loop, of k]
      by (cases "List.find (names_platform k) (rev assets)") simp_all
  qed
  with assets dl show ?thesis by (intro exI conjI)
qed

lemma download_entry_universal_asset: "download_entry universal_asset = Inr universal_entry"
  by (simp add: download_entry_def universal_asset_def universal_entry_def)

lemma download_entry_arm_asset: "download_entry arm_asset = Inr arm_entry"
  by (simp add: download_entry_def arm_asset_def arm_entry_def)

lemma platform_loop_universal:
  "platform_loop universal_asset ''node-darwin-amd64-linux-arm64.plugin'' platforms [] =
     Inr [(''darwin-amd64'', universal_entry), (''linux-arm64'', universal_entry)]"
  by (simp add: platforms_def download_entry_universal_asset sublist_Cons_right)

lemma platform_loop_arm:
  "platform_loop arm_asset ''node-linux-arm64.plugin'' platforms
     [(''darwin-amd64'', universal_entry), (''linux-arm64'', universal_entry)] =
     Inr [(''darwin-amd64'', universal_entry), (''linux-arm64'', arm_entry)]"
  by (simp add: platforms_def download_entry_arm_asset sublist_Cons_right)

lemma name_universal_asset:
  "py_getitem universal_asset ''name'' = Inr (PStr ''node-darwin-amd64-linux-arm64.plugin'')"
  by (simp add: universal_asset_def)

lemma name_arm_asset: "py_getitem arm_asset ''name'' = Inr (PStr ''node-linux-arm64.plugin'')"
  by (simp add: arm_asset_def)

lemma scan_universal_release:
  "scan_assets universal_release =
     Inr [(''darwin-amd64'', universal_entry), (''linux-arm64'', universal_entry)]"
  by (simp add: scan_assets_def universal_release_def name_universal_asset
      platform_loop_universal suffix_to_prefix)

lemma scan_overwriting_release:
  "scan_assets overwriting_release =
     Inr [(''darwin-amd64'', universal_entry), (''linux-arm64'', arm_entry)]"
  by (simp add: scan_assets_def overwriting_release_def name_universal_asset name_arm_asset
      platform_loop_universal platform_loop_arm suffix_to_prefix)

lemma parse_overwriting_release:
  "parse_plugin_release overwriting_release =
     Inr (PDict (entry_fields ''node'' ''v1.2.0''
       [(''darwin-amd64'', universal_entry), (''linux-arm64'', arm_entry)] [] (PStr [])))"
proof (rule parse_plugin_release_eval)
  show "py_getitem overwriting_release ''tagName'' = Inr (PStr ''plugin-node-v1.2.0'')"
    by (simp add: overwriting_release_def)
  show "split_py CHR ''-'' ''plugin-node-v1.2.0'' = ''plugin'' # ''node'' # ''v1.2.0'' # []"
    by simp
  show "scan_assets overwriting_release =
     Inr [(''darwin-amd64'', universal_entry), (''linux-arm64'', arm_entry)]"
    by (rule scan_overwriting_release)
  show "[(''darwin-amd64'', universal_entry), (''linux-arm64'', arm_entry)] \<noteq> []"
    by simp
  show "description_of overwriting_release = Inr []"
    by (simp add: description_of_def overwriting_release_def)
  show "py_get overwriting_release ''publishedAt'' (PStr []) = Inr (PStr [])"
    by (simp add: overwriting_release_def)
qed

theorem C3_witness:
  "parse_plugin_release overwriting_release =
     Inr (PDict (entry_fields ''node'' ''v1.2.0''
       [(''darwin-amd64'', universal_entry), (''linux-arm64'', arm_entry)] [] (PStr []))) \<and>
   (\<exists>assets downloads.
      and_then (py_get overwriting_release ''assets'' (PList [])) py_iter = Inr assets \<and>
      map_of (entry_fields ''node'' ''v1.2.0''
       [(''darwin-amd64'', universal_entry), (''linux-arm64'', arm_entry)] [] (PStr []))
        ''downloads'' = Some (PDict downloads) \<and>
      (\<forall>k. case List.find (names_platform k) (rev assets) of
              None \<Rightarrow> map_of downloads k = None
            | Some a \<Rightarrow> \<exists>e. download_entry a = Inr e \<and> map_of downloads k = Some e))"
  using parse_overwriting_release
    C3_every_matching_platform_recorded [OF parse_overwriting_release]
  by (rule conjI)

theorem C3_counterexample:
  "names_platform ''darwin-amd64'' universal_asset \<and>
   names_platform ''linux-arm64'' universal_asset \<and>
   scan_assets universal_release =
     Inr [(''darwin-amd64'', universal_entry), (''linux-arm64'', universal_entry)]"
proof -
  have "names_platform ''darwin-amd64'' universal_asset"
    by (simp add: names_platform_def platforms_def name_universal_asset suffix_to_prefix
        sublist_Cons_right)
  moreover have "names_platform ''linux-arm64'' universal_asset"
    by (simp add: names_platform_def platforms_def name_universal_asset suffix_to_prefix
        sublist_Cons_right)
  ultimately show ?thesis using scan_universal_release by (intro conjI)
qed

section \<open>The scenario of the specification\<close>

text \<open>
  C7. Parsing the release tagged \<open>plugin-node-v1.2.0\<close> whose only asset is
  \<open>node-linux-amd64.plugin\<close> at \<open>https://x/node-linux-amd64.plugin\<close> gives the entry with
  id \<open>node\<close>, name \<open>Node\<close>, version \<open>1.2.0\<close>, official true, and a downloads mapping of
  exactly \<open>linux-amd64\<close> to that url and the url followed by \<open>.sha256\<close>.
\<close>

theorem C7_node_scenario:
  "parse_plugin_release
     (PDict
       [(''tagName'', PStr ''plugin-node-v1.2.0''),
        (''assets'', PList [PDict [(''name'', PStr ''node-linux-amd64.plugin''),
                                   (''url'', PStr ''https://x/node-linux-amd64.plugin'')]])]) =
     Inr (PDict
       [(''id'', PStr ''node''),
        (''name'', PStr ''Node''),
        (''version'', PStr ''1.2.0''),
        (''official'', PBool True),
        (''downloads'', PDict
           [(''linux-amd64'',
             PDict [(''url'', PStr ''https://x/node-linux-amd64.plugin''),
                    (''checksumUrl'', PStr ''https://x/node-linux-amd64.plugin.sha256'')])]),
        (''metadata'', PDict [(''description'', PStr []), (''publishedAt'', PStr [])])])"
  using parse_node_release
  by (simp only: node_release_def node_asset_def node_fields_def node_entry_def)

section \<open>The loops of the catalog generator\<close>

lemma and_then_assoc: "and_then (and_then r f) g = and_then r (\<lambda>x. and_then (f x) g)"
  by (cases r) simp_all


lemma filter_loop_Cons:
  "filter_loop (release # rest) acc =
     and_then (release_tag release) (\<lambda>tag.
       filter_loop rest (if prefix ''plugin-'' tag then acc @ [release] else acc))"
  by (simp add: release_tag_def and_then_assoc)

lemma filter_loop_qualifying:
  "filter_loop rs acc = and_then (qualifying rs) (\<lambda>out. Inr (acc @ out))"
proof (induction rs arbitrary: acc)
  case Nil
  show ?case by simp
next
  case (Cons r rs)
  show ?case
  proof (cases "release_tag r")
    case (Inl e)
    then show ?thesis by (simp add: filter_loop_Cons del: filter_loop.simps)
  next
    case (Inr tag)
    then show ?thesis
      by (cases "qualifying rs") (simp_all add: filter_loop_Cons Cons.IH del: filter_loop.simps)
  qed
qed

lemma parse_loop_entries:
  "parse_loop rs acc = and_then (entries rs) (\<lambda>out. Inr (acc @ out))"
proof (induction rs arbitrary: acc)
  case Nil
  show ?case by simp
next
  case (Cons r rs)
  show ?case
  proof (cases "parse_plugin_release r")
    case (Inl e)
    then show ?thesis by simp
  next
    case (Inr plugin)
    then show ?thesis
      by (cases "entries rs") (simp_all add: Cons.IH)
  qed
qed

lemma qualifying_skip:
  assumes "release_tag r = Inr tag" and "\<not> prefix ''plugin-'' tag"
  shows "qualifying (xs @ r # ys) = qualifying (xs @ ys)"
proof (induction xs)
  case Nil
  show ?case using assms by (cases "qualifying ys") simp_all
next
  case (Cons x xs)
  then show ?case by simp
qed




lemma generate_catalog_listing:
  assumes "returncode result = 0" and "loads (stdout result) = Inr (PList releases)"
  shows "generate_catalog (Inr result) loads now =
    and_then (collected releases) (\<lambda>plugins.
      Inr (PDict
         [(''version'', PStr ''1.0''),
          (''updated'', PStr (now @ ''Z'')),
          (''baseUrl'', PStr ''https://github.com/blackhole-pro/blackhole/releases/download''),
          (''plugins'', PList plugins)]))"
proof (cases "qualifying releases")
  case (Inl e)
  then show ?thesis
    using assms
    by (simp add: generate_catalog_def get_plugin_releases_def filter_loop_qualifying
        collected_def)
next
  case (Inr q)
  then show ?thesis
    using assms
    by (cases "entries q")
      (simp_all add: generate_catalog_def get_plugin_releases_def filter_loop_qualifying
        parse_loop_entries collected_def)
qed

lemma collected_skip_unqualified:
  assumes "py_getitem release ''tagName'' = Inr (PStr tag)" and "\<not> prefix ''plugin-'' tag"
  shows "collected (before @ release # after) = collected (before @ after)"
proof -
  have "release_tag release = Inr tag"
    using assms(1) by (simp add: release_tag_def)
  then have "qualifying (before @ release # after) = qualifying (before @ after)"
    using assms(2) by (rule qualifying_skip)
  then show ?thesis by (simp add: collected_def)
qed

lemma parse_plugin_release_discards:
  assumes "py_getitem release ''tagName'' = Inr (PStr tag)"
    and "length (split_py CHR ''-'' tag) < 3 \<or> scan_assets release = Inr []"
  shows "parse_plugin_release release = Inr PNone"
  using assms by (auto simp: parse_plugin_release_def py_index_def Let_def)


lemma main_listing:
  assumes "returncode result = 0" and "loads (stdout result) = Inr (PList releases)"
    and "loads text = Inr (PList releases')" and "collected releases = collected releases'"
  shows "main (Inr result) loads now interp = main (Inr (result\<lparr>stdout := text\<rparr>)) loads now interp"
proof -
  have "generate_catalog (Inr (result\<lparr>stdout := text\<rparr>)) loads now =
    and_then (collected releases') (\<lambda>plugins.
      Inr (PDict
         [(''version'', PStr ''1.0''),
          (''updated'', PStr (now @ ''Z'')),
          (''baseUrl'', PStr ''https://github.com/blackhole-pro/blackhole/releases/download''),
          (''plugins'', PList plugins)]))"
    using assms(1,3)
    by (intro generate_catalog_listing [where loads = loads and releases = releases']) simp_all
  then have "generate_catalog (Inr (result\<lparr>stdout := text\<rparr>)) loads now =
      generate_catalog (Inr result) loads now"
    using generate_catalog_listing [where loads = loads and result = result and now = now,
        OF assms(1,2)] assms(4) by simp
  then show ?thesis by (simp add: main_def)
qed

text \<open>
  C4. A release whose tag does not begin with \<open>plugin-\<close> leaves no trace: the script prints
  the same lines on both streams and exits with the same code as on the listing without
  that release, so it adds no entry to the catalog, raises no error and prints nothing.
\<close>

theorem C4_unqualified_release_dropped:
  assumes "returncode result = 0"
    and "loads (stdout result) = Inr (PList (before @ release # after))"
    and "loads text = Inr (PList (before @ after))"
    and "py_getitem release ''tagName'' = Inr (PStr tag)"
    and "\<not> prefix ''plugin-'' tag"
  shows "main (Inr result) loads now interp =
    main (Inr (result\<lparr>stdout := text\<rparr>)) loads now interp"
  using assms(1-3) collected_skip_unqualified [OF assms(4,5)] by (rule main_listing)


section \<open>A sample run\<close>

lemma release_tag_samples:
  "release_tag node_release = Inr ''plugin-node-v1.2.0''"
  "release_tag vv_release = Inr ''plugin-node-vv1.2.0''"
  "release_tag untagged_release = Inr ''v1.0.0''"
  "release_tag short_release = Inr ''plugin-foo''"
  "release_tag bare_release = Inr ''plugin-bar-v2.0.0''"
  by (simp_all add: release_tag_def node_release_def vv_release_def untagged_release_def
      short_release_def bare_release_def)

lemma collected_samples:
  "collected [node_release, vv_release] =
     Inr [PDict (node_fields ''1.2.0''), PDict (node_fields ''1.2.0'')]"
  by (simp add: collected_def release_tag_samples parse_node_release parse_vv_release
      node_fields_def)

lemma generate_catalog_short_listing:
  "generate_catalog (Inr (listing\<lparr>stdout := ''short''\<rparr>)) (sample_loads extra) sample_now =
     Inr sample_catalog"
proof -
  have "generate_catalog (Inr (listing\<lparr>stdout := ''short''\<rparr>)) (sample_loads extra) sample_now =
    and_then (collected [node_release, vv_release]) (\<lambda>plugins.
      Inr (PDict
         [(''version'', PStr ''1.0''),
          (''updated'', PStr (sample_now @ ''Z'')),
          (''baseUrl'', PStr ''https://github.com/blackhole-pro/blackhole/releases/download''),
          (''plugins'', PList plugins)]))"
    by (intro generate_catalog_listing [where loads = "sample_loads extra"])
      (simp_all add: listing_def sample_loads_def)
  then show ?thesis
    by (simp add: collected_samples sample_catalog_def sample_now_def)
qed

lemma main_short_listing:
  "main (Inr (listing\<lparr>stdout := ''short''\<rparr>)) (sample_loads extra) sample_now interp =
     \<lparr>standard_output = [Json_dump sample_catalog], standard_error = [], exit_code = 0\<rparr>"
  by (simp add: main_def generate_catalog_short_listing)

theorem C4_witness:
  "returncode listing = 0 \<and>
   sample_loads untagged_release (stdout listing) =
     Inr (PList ([node_release] @ untagged_release # [vv_release])) \<and>
   sample_loads untagged_release ''short'' = Inr (PList ([node_release] @ [vv_release])) \<and>
   py_getitem untagged_release ''tagName'' = Inr (PStr ''v1.0.0'') \<and>
   \<not> prefix ''plugin-'' ''v1.0.0'' \<and>
   main (Inr listing) (sample_loads untagged_release) sample_now (\<lambda>e. []) =
     \<lparr>standard_output = [Json_dump sample_catalog], standard_error = [], exit_code = 0\<rparr>"
proof -
  have h1: "returncode listing = 0"
    by (simp add: listing_def)
  have h2: "sample_loads untagged_release (stdout listing) =
     Inr (PList ([node_release] @ untagged_release # [vv_release]))"
    by (simp add: listing_def sample_loads_def)
  have h3: "sample_loads untagged_release ''short'' = Inr (PList ([node_release] @ [vv_release]))"
    by (simp add: sample_loads_def)
  have h4: "py_getitem untagged_release ''tagName'' = Inr (PStr ''v1.0.0'')"
    by (simp add: untagged_release_def)
  have h5: "\<not> prefix ''plugin-'' ''v1.0.0''"
    by simp
  have "main (Inr listing) (sample_loads untagged_release) sample_now (\<lambda>e. []) =
     main (Inr (listing\<lparr>stdout := ''short''\<rparr>)) (sample_loads untagged_release) sample_now
       (\<lambda>e. [])"
    using h1 h2 h3 h4 h5 by (rule C4_unqualified_release_dropped)
  then have "main (Inr listing) (sample_loads untagged_release) sample_now (\<lambda>e. []) =
     \<lparr>standard_output = [Json_dump sample_catalog], standard_error = [], exit_code = 0\<rparr>"
    by (simp only: main_short_listing)
  with h1 h2 h3 h4 h5 show ?thesis by (intro conjI)
qed



section \<open>Order of the catalog\<close>

lemma qualifying_filter:
  assumes "qualifying rs = Inr q"
  shows "q = filter (\<lambda>r. case release_tag r of Inl e \<Rightarrow> False
                          | Inr tag \<Rightarrow> prefix ''plugin-'' tag) rs"
  using assms
proof (induction rs arbitrary: q)
  case Nil
  then show ?case by simp
next
  case (Cons r rs)
  from Cons.prems obtain tag out where tag: "release_tag r = Inr tag"
    and out: "qualifying rs = Inr out"
    and q: "q = (if prefix ''plugin-'' tag then r # out else out)"
    by (auto simp: and_then_Inr_iff)
  from Cons.IH [OF out] tag q show ?case by simp
qed


lemma entries_list_all2:
  assumes "entries q = Inr ps"
  shows "list_all2 (\<lambda>release plugin. parse_plugin_release release = Inr plugin)
    (filter (\<lambda>r. case parse_plugin_release r of Inl e \<Rightarrow> False | Inr plugin \<Rightarrow> py_truthy plugin) q)
    ps"
  using assms
proof (induction q arbitrary: ps)
  case Nil
  then show ?case by simp
next
  case (Cons r q)
  from Cons.prems obtain plugin out where plugin: "parse_plugin_release r = Inr plugin"
    and out: "entries q = Inr out"
    and ps: "ps = (if py_truthy plugin then plugin # out else out)"
    by (auto simp: and_then_Inr_iff)
  from Cons.IH [OF out] plugin ps show ?case by simp
qed

lemma filter_yields_entry:
  "filter (\<lambda>r. case parse_plugin_release r of Inl e \<Rightarrow> False | Inr plugin \<Rightarrow> py_truthy plugin)
     (filter (\<lambda>r. case release_tag r of Inl e \<Rightarrow> False | Inr tag \<Rightarrow> prefix ''plugin-'' tag) rs)
   = filter yields_entry rs"
  unfolding filter_filter yields_entry_def
  by (rule filter_cong) (auto split: sum.splits)

lemma collected_list_all2:
  assumes "collected releases = Inr plugins"
  shows "list_all2 (\<lambda>release plugin. parse_plugin_release release = Inr plugin)
    (filter yields_entry releases) plugins"
proof -
  from assms obtain q where q: "qualifying releases = Inr q" and ps: "entries q = Inr plugins"
    by (auto simp: collected_def and_then_Inr_iff)
  from entries_list_all2 [OF ps] show ?thesis
    unfolding qualifying_filter [OF q] filter_yields_entry .
qed

text \<open>
  C6. The plugins of the catalog are, position by position, the entries parsed from the
  releases of the input that yield an entry, taken in the order of the input.
\<close>

theorem C6_plugins_in_input_order:
  assumes "returncode result = 0"
    and "loads (stdout result) = Inr (PList releases)"
    and "generate_catalog (Inr result) loads now = Inr catalog"
  shows "\<exists>plugins. py_getitem catalog ''plugins'' = Inr (PList plugins) \<and>
    subseq (filter yields_entry releases) releases \<and>
    list_all2 (\<lambda>release plugin. parse_plugin_release release = Inr plugin)
      (filter yields_entry releases) plugins"
proof -
  have "generate_catalog (Inr result) loads now =
    and_then (collected releases) (\<lambda>plugins.
      Inr (PDict
         [(''version'', PStr ''1.0''),
          (''updated'', PStr (now @ ''Z'')),
          (''baseUrl'', PStr ''https://github.com/blackhole-pro/blackhole/releases/download''),
          (''plugins'', PList plugins)]))"
    using assms(1,2) by (rule generate_catalog_listing [where loads = loads])
  with assms(3) obtain plugins where c: "collected releases = Inr plugins"
    and cat: "catalog = PDict
         [(''version'', PStr ''1.0''),
          (''updated'', PStr (now @ ''Z'')),
          (''baseUrl'', PStr ''https://github.com/blackhole-pro/blackhole/releases/download''),
          (''plugins'', PList plugins)]"
    by (cases "collected releases") simp_all
  have "py_getitem catalog ''plugins'' = Inr (PList plugins)"
    unfolding cat by simp
  moreover have "subseq (filter yields_entry releases) releases"
    by simp
  moreover note collected_list_all2 [OF c]
  ultimately show ?thesis by (intro exI conjI)
qed

lemma generate_catalog_long_listing:
  "generate_catalog (Inr listing) (sample_loads untagged_release) sample_now = Inr sample_catalog"
proof -
  have "collected ([node_release] @ untagged_release # [vv_release]) =
      collected ([node_release] @ [vv_release])"
    by (rule collected_skip_unqualified [where tag = "''v1.0.0''"])
      (simp_all add: untagged_release_def)
  then have c: "collected [node_release, untagged_release, vv_release] =
      Inr [PDict (node_fields ''1.2.0''), PDict (node_fields ''1.2.0'')]"
    by (simp add: collected_samples)
  have "generate_catalog (Inr listing) (sample_loads untagged_release) sample_now =
    and_then (collected [node_release, untagged_release, vv_release]) (\<lambda>plugins.
      Inr (PDict
         [(''version'', PStr ''1.0''),
          (''updated'', PStr (sample_now @ ''Z'')),
          (''baseUrl'', PStr ''https://github.com/blackhole-pro/blackhole/releases/download''),
          (''plugins'', PList plugins)]))"
    by (intro generate_catalog_listing [where loads = "sample_loads untagged_release"])
      (simp_all add: listing_def sample_loads_def)
  then show ?thesis
    by (simp add: c sample_catalog_def sample_now_def)
qed

theorem C6_witness:
  "returncode listing = 0 \<and>
   sample_loads untagged_release (stdout listing) =
     Inr (PList [node_release, untagged_release, vv_release]) \<and>
   generate_catalog (Inr listing) (sample_loads untagged_release) sample_now = Inr sample_catalog \<and>
   (\<exists>plugins. py_getitem sample_catalog ''plugins'' = Inr (PList plugins) \<and>
      subseq (filter yields_entry [node_release, untagged_release, vv_release])
        [node_release, untagged_release, vv_release] \<and>
      list_all2 (\<lambda>release plugin. parse_plugin_release release = Inr plugin)
        (filter yields_entry [node_release, untagged_release, vv_release]) plugins)"
proof -
  have h1: "returncode listing = 0"
    by (simp add: listing_def)
  have h2: "sample_loads untagged_release (stdout listing) =
     Inr (PList [node_release, untagged_release, vv_release])"
    by (simp add: listing_def sample_loads_def)
  note h3 = generate_catalog_long_listing
  from C6_plugins_in_input_order [where loads = "sample_loads untagged_release", OF h1 h2 h3]
    h1 h2 h3
  show ?thesis by (intro conjI)
qed

section \<open>Failure of the release listing\<close>

text \<open>
  C8 (as the script behaves). When the listing command ends with a non-zero code, the
  script prints no catalog and exits with code 1, but the line \<open>Error: Failed to get
  releases: \<close> followed by the command's diagnostic text goes to standard output;
  standard error stays empty.
\<close>

theorem C8_error_line_on_standard_output:
  "main (Inr (failed_listing out diagnostic)) loads now interp =
     \<lparr>standard_output = [Line (''Error: Failed to get releases: '' @ diagnostic)],
      standard_error = [],
      exit_code = 1\<rparr>"
  by (simp add: main_def generate_catalog_def get_plugin_releases_def failed_listing_def)

text \<open>The manifest converter, in the same situation, prints its error on standard error.\<close>

lemma convert_main_error_on_standard_error:
  assumes "load path = Inl e"
  shows "convert_main [prog, path] load fmt now interp =
     \<lparr>standard_output = [], standard_error = [Line (''Error: '' @ str_exc interp e)],
      exit_code = 1\<rparr>"
  using assms by (simp add: convert_main_def py_index_def convert_manifest_def)

section \<open>Defaults of the manifest converter\<close>



section \<open>Totality of parsing\<close>

lemma is_str_iff: "is_str v \<longleftrightarrow> (\<exists>s. v = PStr s)"
  by (cases v) (simp_all add: is_str_def)

lemma asset_shape_fields:
  assumes "asset_shape a"
  obtains name u where "py_getitem a ''name'' = Inr (PStr name)"
    "py_getitem a ''url'' = Inr (PStr u)"
proof -
  from assms obtain kvs where a: "a = PDict kvs"
    by (cases a) (simp_all add: asset_shape_def)
  from assms obtain name where "map_of kvs ''name'' = Some (PStr name)"
    unfolding a asset_shape_def by (auto simp: is_str_iff split: option.splits)
  moreover from assms obtain u where "map_of kvs ''url'' = Some (PStr u)"
    unfolding a asset_shape_def by (auto simp: is_str_iff split: option.splits)
  ultimately show ?thesis using that a by simp
qed

lemma download_shape_entry:
  "download_shape (PDict [(''url'', PStr u), (''checksumUrl'', PStr c)])"
  by (simp add: download_shape_def field_def is_str_def)

lemma list_all_update:
  assumes "list_all P d" and "P (k, v)"
  shows "list_all P (AList.update k v d)"
  using assms by (induction d) auto

lemma downloads_ok_update:
  assumes "downloads_ok d" and "p \<in> set platforms" and "download_shape e"
  shows "downloads_ok (AList.update p e d)"
  using assms by (simp add: downloads_ok_def distinct_update list_all_update)

lemma platform_loop_total:
  assumes "py_getitem a ''url'' = Inr (PStr u)" and "set ps \<subseteq> set platforms"
    and "downloads_ok d"
  shows "\<exists>d'. platform_loop a name ps d = Inr d' \<and> downloads_ok d'"
  using assms(2,3)
proof (induction ps arbitrary: d)
  case Nil
  then show ?case by simp
next
  case (Cons p ps)
  have e: "download_entry a = Inr (PDict [(''url'', PStr u),
     (''checksumUrl'', PStr (replace_py ''.plugin'' ''.plugin.sha256'' u))])"
    using assms(1) by (rule download_entry_url)
  have ps: "set ps \<subseteq> set platforms" and p: "p \<in> set platforms"
    using Cons.prems(1) by simp_all
  show ?case
  proof (cases "sublist p name")
    case True
    have "downloads_ok (AList.update p (PDict [(''url'', PStr u),
       (''checksumUrl'', PStr (replace_py ''.plugin'' ''.plugin.sha256'' u))]) d)"
      using Cons.prems(2) p download_shape_entry by (rule downloads_ok_update)
    from Cons.IH [OF ps this] show ?thesis using True e by simp
  next
    case False
    from Cons.IH [OF ps Cons.prems(2)] show ?thesis using False by simp
  qed
qed

lemma asset_loop_total:
  assumes "list_all asset_shape as" and "downloads_ok d"
  shows "\<exists>d'. asset_loop as d = Inr d' \<and> downloads_ok d'"
  using assms
proof (induction as arbitrary: d)
  case Nil
  then show ?case by simp
next
  case (Cons a as)
  from Cons.prems(1) have a: "asset_shape a" and as: "list_all asset_shape as"
    by simp_all
  from a obtain name u where name: "py_getitem a ''name'' = Inr (PStr name)"
    and u: "py_getitem a ''url'' = Inr (PStr u)"
    by (rule asset_shape_fields)
  show ?case
  proof (cases "suffix ''.plugin'' name")
    case True
    from platform_loop_total [OF u subset_refl Cons.prems(2), of name]
    obtain d1 where d1: "platform_loop a name platforms d = Inr d1" and ok: "downloads_ok d1"
      by (elim exE conjE)
    from Cons.IH [OF as ok] show ?thesis using True name d1 by simp
  next
    case False
    from Cons.IH [OF as Cons.prems(2)] show ?thesis using False name by simp
  qed
qed

lemma scan_assets_total:
  assumes "release_shape release"
  shows "\<exists>dl. scan_assets release = Inr dl \<and> downloads_ok dl"
proof -
  from assms obtain kvs where r: "release = PDict kvs"
    by (cases release) (simp_all add: release_shape_def)
  have empty: "downloads_ok []"
    by (simp add: downloads_ok_def)
  show ?thesis
  proof (cases "map_of kvs ''assets''")
    case None
    then show ?thesis using empty by (simp add: r scan_assets_def)
  next
    case (Some v)
    with assms obtain as where v: "v = PList as" and as: "list_all asset_shape as"
      unfolding r release_shape_def by (cases v) simp_all
    from asset_loop_total [OF as empty] show ?thesis
      using Some v by (simp add: r scan_assets_def)
  qed
qed

lemma description_of_total:
  assumes "release_shape release"
  shows "\<exists>s. description_of release = Inr s"
proof -
  from assms obtain kvs where r: "release = PDict kvs"
    by (cases release) (simp_all add: release_shape_def)
  from assms have body: "nullable_str (map_of kvs ''body'')"
    by (simp add: r release_shape_def)
  show ?thesis
  proof (cases "map_of kvs ''body''")
    case None
    then show ?thesis by (simp add: r description_of_def)
  next
    case (Some v)
    with body have "v = PNone \<or> (\<exists>s. v = PStr s)"
      by (simp add: nullable_str_def is_str_iff)
    then show ?thesis
    proof
      assume "v = PNone"
      with Some show ?thesis by (simp add: r description_of_def)
    next
      assume "\<exists>s. v = PStr s"
      then obtain s where "v = PStr s" ..
      with Some show ?thesis
        using split_py_not_Nil [of "CHR 0x0A" s]
        by (simp add: r description_of_def py_index_def)
    qed
  qed
qed

lemma published_total:
  assumes "release_shape release"
  shows "\<exists>p. py_get release ''publishedAt'' (PStr []) = Inr p \<and> str_or_null p \<and>
    (py_getitem release ''publishedAt'' \<noteq> Inr PNone \<longrightarrow> is_str p)"
proof -
  from assms obtain kvs where r: "release = PDict kvs"
    by (cases release) (simp_all add: release_shape_def)
  from assms have "nullable_str (map_of kvs ''publishedAt'')"
    by (simp add: r release_shape_def)
  then show ?thesis
    by (cases "map_of kvs ''publishedAt''")
      (auto simp: r nullable_str_def str_or_null_def is_str_def)
qed

lemma entry_shape_entry_fields:
  assumes "dl \<noteq> []" and "downloads_ok dl" and "published_ok pub"
  shows "entry_shape published_ok (PDict (entry_fields i p dl d pub))"
  using assms by (simp add: entry_shape_def entry_fields_def field_def is_str_def)

lemma three_parts:
  assumes "3 \<le> length xs"
  obtains a b c rest where "xs = a # b # c # rest"
  using assms by (auto simp: numeral_3_eq_3 Suc_le_length_iff)

lemma tag_of_shape:
  assumes "release_shape release"
  obtains tag where "py_getitem release ''tagName'' = Inr (PStr tag)"
proof -
  from assms obtain kvs where r: "release = PDict kvs"
    by (cases release) (simp_all add: release_shape_def)
  from assms obtain tag where "map_of kvs ''tagName'' = Some (PStr tag)"
    unfolding r release_shape_def by (auto simp: is_str_iff split: option.splits)
  then show ?thesis using that r by simp
qed

lemma parse_plugin_release_shaped:
  assumes "release_shape release"
  shows "\<exists>result. parse_plugin_release release = Inr result \<and>
    (result = PNone \<or> entry_shape str_or_null result) \<and>
    (py_getitem release ''publishedAt'' \<noteq> Inr PNone \<longrightarrow>
       result = PNone \<or> catalog_plugin_entry result)"
proof -
  from assms obtain tag where tag: "py_getitem release ''tagName'' = Inr (PStr tag)"
    by (rule tag_of_shape)
  from scan_assets_total [OF assms] obtain dl where dl: "scan_assets release = Inr dl"
    and ok: "downloads_ok dl"
    by (elim exE conjE)
  from description_of_total [OF assms] obtain s where s: "description_of release = Inr s"
    by (elim exE)
  from published_total [OF assms] obtain pub where
    pub: "py_get release ''publishedAt'' (PStr []) = Inr pub"
    and pub_ok: "str_or_null pub"
    and pub_str: "py_getitem release ''publishedAt'' \<noteq> Inr PNone \<longrightarrow> is_str pub"
    by (elim exE conjE)
  show ?thesis
  proof (cases "length (split_py CHR ''-'' tag) < 3 \<or> dl = []")
    case True
    with tag dl have "parse_plugin_release release = Inr PNone"
      by (intro parse_plugin_release_discards [where tag = tag]) auto
    then show ?thesis by simp
  next
    case False
    then have "3 \<le> length (split_py CHR ''-'' tag)"
      by simp
    then obtain a b c rest where parts: "split_py CHR ''-'' tag = a # b # c # rest"
      by (rule three_parts)
    from False have ne: "dl \<noteq> []" by simp
    have p: "parse_plugin_release release = Inr (PDict (entry_fields b c dl s pub))"
      using tag parts dl ne s pub by (rule parse_plugin_release_eval)
    have "entry_shape str_or_null (PDict (entry_fields b c dl s pub))"
      using ne ok pub_ok by (rule entry_shape_entry_fields)
    moreover have "py_getitem release ''publishedAt'' \<noteq> Inr PNone \<longrightarrow>
        catalog_plugin_entry (PDict (entry_fields b c dl s pub))"
      unfolding catalog_plugin_entry_def
      using pub_str entry_shape_entry_fields [OF ne ok, of is_str pub] by simp
    ultimately show ?thesis using p by simp
  qed
qed







section \<open>Runs on well-shaped listings\<close>

lemma qualifying_total:
  assumes "list_all release_shape rs"
  shows "\<exists>q. qualifying rs = Inr q \<and> list_all release_shape q"
  using assms
proof (induction rs)
  case Nil
  then show ?case by simp
next
  case (Cons r rs)
  from Cons.prems have r: "release_shape r" and rs: "list_all release_shape rs"
    by simp_all
  from r obtain tag where "py_getitem r ''tagName'' = Inr (PStr tag)"
    by (rule tag_of_shape)
  then have tag: "release_tag r = Inr tag"
    by (simp add: release_tag_def)
  from Cons.IH [OF rs] obtain q where "qualifying rs = Inr q" "list_all release_shape q"
    by (elim exE conjE)
  with tag r show ?case by simp
qed

lemma entries_total:
  assumes "list_all release_shape q"
  shows "\<exists>ps. entries q = Inr ps"
  using assms
proof (induction q)
  case Nil
  then show ?case by simp
next
  case (Cons r q)
  from Cons.prems have r: "release_shape r" and q: "list_all release_shape q"
    by simp_all
  from parse_plugin_release_shaped [OF r] obtain v where "parse_plugin_release r = Inr v"
    by (elim exE conjE)
  moreover from Cons.IH [OF q] obtain ps where "entries q = Inr ps"
    by (elim exE)
  ultimately show ?case by simp
qed

text \<open>
  On a listing that ran, decoded to a list and holds only releases of the shape of
  section 3, the script prints a catalog and exits with code 0.
\<close>

lemma main_total:
  assumes "returncode result = 0"
    and "loads (stdout result) = Inr (PList releases)"
    and "list_all release_shape releases"
  shows "\<exists>catalog. main (Inr result) loads now interp =
    \<lparr>standard_output = [Json_dump catalog], standard_error = [], exit_code = 0\<rparr>"
proof -
  from qualifying_total [OF assms(3)] obtain q where q: "qualifying releases = Inr q"
    and shaped: "list_all release_shape q"
    by (elim exE conjE)
  from entries_total [OF shaped] obtain ps where ps: "entries q = Inr ps"
    by (elim exE)
  have "collected releases = Inr ps"
    using q ps by (simp add: collected_def)
  then have "generate_catalog (Inr result) loads now = Inr (PDict
         [(''version'', PStr ''1.0''),
          (''updated'', PStr (now @ ''Z'')),
          (''baseUrl'', PStr ''https://github.com/blackhole-pro/blackhole/releases/download''),
          (''plugins'', PList ps)])"
    using generate_catalog_listing [where loads = loads and result = result and now = now,
        OF assms(1,2)] by simp
  then show ?thesis by (simp add: main_def)
qed

end
